theory Spec2Isabelle
  imports Main
begin

text \<open>
  A model of the recorder component \<open>VideoRecorder\<close>, of the image widget
  \<open>ImageAnalyzer\<close> and of the inference client \<open>analyzeImageWithGemini\<close>.  Each handler
  is a function on a record holding the component's state, its refs and the part of the
  browser it acts on (object URLs, media tracks, the recorder, timers, the event queue).
  What the browser decides is a parameter: the answers of \<open>getUserMedia\<close>, the data
  captured, the outcome of reading a file and of the inference call.
\<close>

section \<open>JavaScript values used by the components\<close>

text \<open>
  The duration state of \<open>VideoRecorder\<close> is a JavaScript number that is either an integer
  (the default \<open>1\<close>, or the result of \<open>Math.max(1, parseInt(...))\<close>) or \<open>NaN\<close>.  Integers are
  modelled without the rounding of double precision.
\<close>

datatype jsnum = NaN | Num int

text \<open>\<open>a > b\<close>: every comparison with \<open>NaN\<close> is false.\<close>

fun js_gt :: "jsnum \<Rightarrow> jsnum \<Rightarrow> bool" where
  "js_gt (Num a) (Num b) = (a > b)"
| "js_gt _ _ = False"

text \<open>\<open>a * b\<close>: \<open>NaN\<close> is absorbing.\<close>

fun js_mul :: "jsnum \<Rightarrow> jsnum \<Rightarrow> jsnum" where
  "js_mul (Num a) (Num b) = Num (a * b)"
| "js_mul _ _ = NaN"

text \<open>\<open>Math.max(a, b)\<close>: \<open>NaN\<close> if either argument is \<open>NaN\<close>.\<close>

fun Math_max :: "jsnum \<Rightarrow> jsnum \<Rightarrow> jsnum" where
  "Math_max (Num a) (Num b) = Num (max a b)"
| "Math_max _ _ = NaN"

definition is_ws :: "char \<Rightarrow> bool" where
  "is_ws c = (of_char c \<in> {9, 10, 11, 12, 13, 32 :: nat})"

definition is_digit :: "char \<Rightarrow> bool" where
  "is_digit c = (48 \<le> (of_char c :: nat) \<and> (of_char c :: nat) \<le> 57)"

definition digits_val :: "string \<Rightarrow> nat" where
  "digits_val Z = foldl (\<lambda>a c. 10 * a + (of_char c - 48)) 0 Z"

text \<open>
  \<open>parseInt(s, 10)\<close>: skip leading white space, read an optional sign, take the longest
  prefix of decimal digits; no digit gives \<open>NaN\<close>.  (\<open>-0\<close> is \<open>Num 0\<close>.)
\<close>

definition parseInt10 :: "string \<Rightarrow> jsnum" where
  "parseInt10 s =
     (let S = dropWhile is_ws s;
          sign = (case S of [] \<Rightarrow> 1 | c # _ \<Rightarrow> if c = CHR ''-'' then - 1 else (1::int));
          S' = (case S of [] \<Rightarrow> [] | c # r \<Rightarrow> if c = CHR ''+'' \<or> c = CHR ''-'' then r else S);
          Z = takeWhile is_digit S'
      in if Z = [] then NaN else Num (sign * int (digits_val Z)))"

text \<open>\<open>s.includes(p)\<close> on strings.\<close>

fun js_includes :: "string \<Rightarrow> string \<Rightarrow> bool" where
  "js_includes [] p = (p = [])"
| "js_includes (c # s) p = (take (length p) (c # s) = p \<or> js_includes s p)"

section \<open>The platform: object URLs, media streams, recorder, timers\<close>

type_synonym track = nat
type_synonym MediaStream = "track list"
type_synonym Blob = "nat list"

datatype url = BlobUrl nat

text \<open>The store behind \<open>URL.createObjectURL\<close> and \<open>URL.revokeObjectURL\<close>.\<close>

record url_store =
  object_urls :: "(url \<times> Blob) list"
  revoked_urls :: "url list"

definition createObjectURL :: "Blob \<Rightarrow> 'a url_store_scheme \<Rightarrow> url \<times> 'a url_store_scheme" where
  "createObjectURL b w =
     (let u = BlobUrl (length (object_urls w))
      in (u, w\<lparr>object_urls := object_urls w @ [(u, b)]\<rparr>))"

definition revokeObjectURL :: "url \<Rightarrow> 'a url_store_scheme \<Rightarrow> 'a url_store_scheme" where
  "revokeObjectURL u w = w\<lparr>revoked_urls := revoked_urls w @ [u]\<rparr>"

text \<open>The locators that still keep their blob alive.\<close>

definition live_urls :: "'a url_store_scheme \<Rightarrow> url set" where
  "live_urls w = fst ` set (object_urls w) - set (revoked_urls w)"

datatype video_constraints = AnyVideo | FacingMode string

record MediaStreamConstraints =
  video :: video_constraints
  audio :: bool

datatype RecordingStatus = Idle | PermissionPending | Ready | Recording | Finished

datatype RecorderState = RS_inactive | RS_recording | RS_paused

record MediaRecorder =
  mr_state :: RecorderState
  mr_stream :: MediaStream

text \<open>
  The callbacks the component hands to \<open>setTimeout\<close> and \<open>setInterval\<close>, and the recorder
  events the platform queues; a queued \<open>stop\<close> event carries the stream its \<open>onstop\<close> closure
  captured.
\<close>

datatype callback = AutoStop | StopwatchTick

datatype timer = Timer (t_id: nat) (t_due: int) (t_every: "int option") (t_callback: callback)

datatype task = DataAvailable Blob | Stop MediaStream

section \<open>VideoRecorder: state, refs and the platform it runs on\<close>

record world = url_store +
  status :: RecordingStatus
  mediaStream :: "MediaStream option"
  recordedVideoUrl :: "url option"
  error :: "string option"
  duration :: jsnum
  elapsedTime :: nat
  srcObject :: "MediaStream option"
  mediaRecorderRef :: "MediaRecorder option"
  recordedChunksRef :: "Blob list"
  timerRef :: "nat option"
  stopwatchRef :: "nat option"
  requests :: "MediaStreamConstraints list"
  stopped_tracks :: "track list"
  buffered :: Blob
  tasks :: "task list"
  now :: int
  last_timer_id :: nat
  timers :: "timer list"

definition initial :: world where
  "initial = \<lparr>object_urls = [], revoked_urls = [],
     status = Idle, mediaStream = None, recordedVideoUrl = None, error = None,
     duration = Num 1, elapsedTime = 0, srcObject = None,
     mediaRecorderRef = None, recordedChunksRef = [], timerRef = None, stopwatchRef = None,
     requests = [], stopped_tracks = [], buffered = [], tasks = [],
     now = 0, last_timer_id = 0, timers = []\<rparr>"

subsection \<open>Platform operations\<close>

text \<open>
  \<open>navigator.mediaDevices.getUserMedia\<close>: the platform's answer to each request is the
  parameter \<open>gum\<close> (\<open>None\<close> is a rejected promise); every request is logged.
\<close>

definition getUserMedia ::
  "(MediaStreamConstraints \<Rightarrow> MediaStream option) \<Rightarrow> MediaStreamConstraints \<Rightarrow> world
    \<Rightarrow> MediaStream option \<times> world" where
  "getUserMedia gum c w = (gum c, w\<lparr>requests := requests w @ [c]\<rparr>)"

text \<open>
  Timers: \<open>setTimeout\<close> and \<open>setInterval\<close> draw their ids (always positive) from one
  counter and share one list of active timers.  The platform takes the delay as a signed
  32-bit integer: a number outside \<open>-2147483648 .. 2147483647\<close> wraps around modulo
  \<open>4294967296\<close>, \<open>NaN\<close> becomes zero, and a delay below zero counts as zero.  A timer is due
  once the clock has reached \<open>t_due\<close>.
\<close>

definition to_int32 :: "int \<Rightarrow> int" where
  "to_int32 n = (n + 2147483648) mod 4294967296 - 2147483648"

definition delay_ms :: "jsnum \<Rightarrow> int" where
  "delay_ms d = (case d of NaN \<Rightarrow> 0 | Num n \<Rightarrow> max 0 (to_int32 n))"

definition setTimeout :: "callback \<Rightarrow> jsnum \<Rightarrow> world \<Rightarrow> nat \<times> world" where
  "setTimeout cb d w =
     (let i = Suc (last_timer_id w)
      in (i, w\<lparr>last_timer_id := i,
                timers := timers w @ [Timer i (now w + delay_ms d) None cb]\<rparr>))"

definition setInterval :: "callback \<Rightarrow> jsnum \<Rightarrow> world \<Rightarrow> nat \<times> world" where
  "setInterval cb d w =
     (let i = Suc (last_timer_id w)
      in (i, w\<lparr>last_timer_id := i,
                timers := timers w @ [Timer i (now w + delay_ms d) (Some (delay_ms d)) cb]\<rparr>))"

definition clearTimeout :: "nat \<Rightarrow> world \<Rightarrow> world" where
  "clearTimeout i w = w\<lparr>timers := filter (\<lambda>tm. t_id tm \<noteq> i) (timers w)\<rparr>"

text \<open>
  \<open>MediaRecorder.start()\<close> sets the recorder of \<open>mediaRecorderRef\<close> to \<open>recording\<close> and
  begins gathering data.  \<open>MediaRecorder.stop()\<close> sets it to \<open>inactive\<close> at once and queues
  a \<open>dataavailable\<close> event with the gathered data followed by a \<open>stop\<close> event.
\<close>

definition recorder_start :: "world \<Rightarrow> world" where
  "recorder_start w =
     (case mediaRecorderRef w of
        None \<Rightarrow> w
      | Some r \<Rightarrow> w\<lparr>mediaRecorderRef := Some (r\<lparr>mr_state := RS_recording\<rparr>), buffered := []\<rparr>)"

definition recorder_stop :: "world \<Rightarrow> world" where
  "recorder_stop w =
     (case mediaRecorderRef w of
        None \<Rightarrow> w
      | Some r \<Rightarrow>
          if mr_state r = RS_inactive then w
          else w\<lparr>mediaRecorderRef := Some (r\<lparr>mr_state := RS_inactive\<rparr>),
                 tasks := tasks w @ [DataAvailable (buffered w), Stop (mr_stream r)],
                 buffered := []\<rparr>)"

text \<open>The platform gathers captured data while the recorder is recording.\<close>

definition platform_capture :: "Blob \<Rightarrow> world \<Rightarrow> world" where
  "platform_capture d w =
     (case mediaRecorderRef w of
        None \<Rightarrow> w
      | Some r \<Rightarrow> if mr_state r = RS_recording then w\<lparr>buffered := buffered w @ d\<rparr> else w)"

definition track_stop :: "track \<Rightarrow> world \<Rightarrow> world" where
  "track_stop t w = w\<lparr>stopped_tracks := stopped_tracks w @ [t]\<rparr>"

definition is_capturing :: "world \<Rightarrow> bool" where
  "is_capturing w =
     (case mediaRecorderRef w of None \<Rightarrow> False | Some r \<Rightarrow> mr_state r = RS_recording)"

subsection \<open>The handlers of VideoRecorder\<close>

text \<open>
  The \<open>video\<close> element, and with it \<open>videoRef.current\<close>, exists only while the rendered
  status is \<open>ready\<close> or \<open>recording\<close>.
\<close>

definition video_mounted :: "world \<Rightarrow> bool" where
  "video_mounted w = (status w = Ready \<or> status w = Recording)"

definition handleRequestPermission ::
  "(MediaStreamConstraints \<Rightarrow> MediaStream option) \<Rightarrow> world \<Rightarrow> world" where
  "handleRequestPermission gum w =
     (let w1 = w\<lparr>status := PermissionPending, error := None\<rparr>;
          videoConstraints = FacingMode ''environment'';
          (r1, w2) = getUserMedia gum \<lparr>video = videoConstraints, audio = True\<rparr> w1;
          (r, w3) = (case r1 of
                       Some s \<Rightarrow> (Some s, w2)
                     | None \<Rightarrow> getUserMedia gum \<lparr>video = AnyVideo, audio = True\<rparr> w2)
      in case r of
           Some stream \<Rightarrow>
             (let w4 = w3\<lparr>mediaStream := Some stream\<rparr>;
                  w5 = (if video_mounted w4 then w4\<lparr>srcObject := Some stream\<rparr> else w4)
              in w5\<lparr>status := Ready\<rparr>)
         | None \<Rightarrow>
             w3\<lparr>error := Some ''Could not access camera and microphone. Please check permissions in your browser settings.'',
                status := Idle\<rparr>)"

definition startStopwatch :: "world \<Rightarrow> world" where
  "startStopwatch w =
     (let w1 = w\<lparr>elapsedTime := 0\<rparr>;
          (i, w2) = setInterval StopwatchTick (Num 1000) w1
      in w2\<lparr>stopwatchRef := Some i\<rparr>)"

definition stopStopwatch :: "world \<Rightarrow> world" where
  "stopStopwatch w =
     (case stopwatchRef w of
        None \<Rightarrow> w
      | Some i \<Rightarrow> if i \<noteq> 0 then (clearTimeout i w)\<lparr>stopwatchRef := None\<rparr> else w)"

definition handleStopRecording :: "world \<Rightarrow> world" where
  "handleStopRecording w =
     (case mediaRecorderRef w of
        None \<Rightarrow> w
      | Some r \<Rightarrow>
          if mr_state r = RS_recording then
            (let w1 = recorder_stop w
             in case timerRef w1 of
                  None \<Rightarrow> w1
                | Some t \<Rightarrow> if t \<noteq> 0 then (clearTimeout t w1)\<lparr>timerRef := None\<rparr> else w1)
          else w)"

definition ondataavailable :: "Blob \<Rightarrow> world \<Rightarrow> world" where
  "ondataavailable d w =
     (if length d > 0 then w\<lparr>recordedChunksRef := recordedChunksRef w @ [d]\<rparr> else w)"

definition onstop :: "MediaStream \<Rightarrow> world \<Rightarrow> world" where
  "onstop ms w =
     (let blob = concat (recordedChunksRef w);
          (u, w1) = createObjectURL blob w;
          w2 = w1\<lparr>recordedVideoUrl := Some u, status := Finished\<rparr>;
          w3 = stopStopwatch w2;
          w4 = fold track_stop ms w3
      in w4\<lparr>mediaStream := None\<rparr>)"

definition handleStartRecording :: "world \<Rightarrow> world" where
  "handleStartRecording w =
     (case mediaStream w of
        None \<Rightarrow> w
      | Some ms \<Rightarrow>
          (let w1 = w\<lparr>status := Recording, recordedChunksRef := []\<rparr>;
               recorder = \<lparr>mr_state = RS_inactive, mr_stream = ms\<rparr>;
               w2 = w1\<lparr>mediaRecorderRef := Some recorder\<rparr>;
               w3 = recorder_start w2;
               w4 = startStopwatch w3
           in if js_gt (duration w) (Num 0) then
                (let (t, w5) = setTimeout AutoStop
                                 (js_mul (js_mul (duration w) (Num 60)) (Num 1000)) w4
                 in w5\<lparr>timerRef := Some t\<rparr>)
              else w4))"

definition handleNewRecording :: "world \<Rightarrow> world" where
  "handleNewRecording w =
     (let w1 = (case recordedVideoUrl w of Some u \<Rightarrow> revokeObjectURL u w | None \<Rightarrow> w)
      in w1\<lparr>recordedVideoUrl := None, status := Idle, error := None, elapsedTime := 0\<rparr>)"

text \<open>The \<open>onChange\<close> of the duration input; \<open>v\<close> is \<open>e.target.value\<close>.\<close>

definition duration_onChange :: "string \<Rightarrow> world \<Rightarrow> world" where
  "duration_onChange v w = w\<lparr>duration := Math_max (Num 1) (parseInt10 v)\<rparr>"

subsection \<open>The event loop\<close>

text \<open>Delivery of the oldest queued recorder event to its handler.\<close>

fun run_task :: "task \<Rightarrow> world \<Rightarrow> world" where
  "run_task (DataAvailable d) w = ondataavailable d w"
| "run_task (Stop ms) w = onstop ms w"

definition deliver :: "world \<Rightarrow> world" where
  "deliver w = (case tasks w of [] \<Rightarrow> w | t # ts \<Rightarrow> run_task t (w\<lparr>tasks := ts\<rparr>))"

text \<open>
  One millisecond of the clock: every timer that is due and still active runs, a one-shot
  timer leaving the list and an interval being rescheduled.
\<close>

definition fire :: "callback \<Rightarrow> world \<Rightarrow> world" where
  "fire cb w =
     (case cb of
        AutoStop \<Rightarrow> handleStopRecording w
      | StopwatchTick \<Rightarrow> w\<lparr>elapsedTime := elapsedTime w + 1\<rparr>)"

definition run_timer :: "timer \<Rightarrow> world \<Rightarrow> world" where
  "run_timer tm w =
     (if tm \<in> set (timers w) then
        fire (t_callback tm)
          (w\<lparr>timers :=
               (case t_every tm of
                  None \<Rightarrow> remove1 tm (timers w)
                | Some p \<Rightarrow>
                    map (\<lambda>x. if x = tm then Timer (t_id tm) (t_due tm + p) (Some p) (t_callback tm)
                             else x) (timers w))\<rparr>)
      else w)"

definition advance1 :: "world \<Rightarrow> world" where
  "advance1 w =
     (let w1 = w\<lparr>now := now w + 1\<rparr>
      in fold run_timer (filter (\<lambda>tm. t_due tm \<le> now w1) (timers w1)) w1)"

text \<open>The number of \<open>stop\<close> events that are queued.\<close>

fun is_Stop :: "task \<Rightarrow> bool" where
  "is_Stop (Stop _) = True"
| "is_Stop (DataAvailable _) = False"

definition stops :: "world \<Rightarrow> nat" where
  "stops w = length (filter is_Stop (tasks w))"

subsection \<open>What the user interface lets happen\<close>

text \<open>
  The rendered markup offers each control in some statuses only: \<open>Start Camera\<close> when
  \<open>idle\<close>; the duration input and \<open>Start Recording\<close> when \<open>ready\<close>; \<open>Stop Recording\<close>
  when \<open>recording\<close>; \<open>Record Another\<close> when \<open>finished\<close> with a recorded URL.  The platform
  gathers data, delivers queued recorder events and lets the clock advance at any moment;
  a recorder that is recording may also stop by itself (its tracks ended, or it failed),
  which queues the same events as \<open>stop()\<close> without any handler of the component running.
\<close>

inductive reachable :: "world \<Rightarrow> bool" where
  r_initial: "reachable initial"
| r_permission: "reachable w \<Longrightarrow> status w = Idle \<Longrightarrow> reachable (handleRequestPermission gum w)"
| r_duration: "reachable w \<Longrightarrow> status w = Ready \<Longrightarrow> reachable (duration_onChange v w)"
| r_start: "reachable w \<Longrightarrow> status w = Ready \<Longrightarrow> reachable (handleStartRecording w)"
| r_stop: "reachable w \<Longrightarrow> status w = Recording \<Longrightarrow> reachable (handleStopRecording w)"
| r_new: "reachable w \<Longrightarrow> status w = Finished \<Longrightarrow> recordedVideoUrl w \<noteq> None
          \<Longrightarrow> reachable (handleNewRecording w)"
| r_capture: "reachable w \<Longrightarrow> reachable (platform_capture d w)"
| r_ends: "reachable w \<Longrightarrow> is_capturing w \<Longrightarrow> reachable (recorder_stop w)"
| r_deliver: "reachable w \<Longrightarrow> reachable (deliver w)"
| r_advance: "reachable w \<Longrightarrow> reachable (advance1 w)"

section \<open>The inference client\<close>

text \<open>A thrown JavaScript value: an \<open>Error\<close> with its message, or anything else.\<close>

datatype thrown = JsError string | NonError

record File =
  file_ref :: nat
  file_type :: string
  file_data :: Blob

record GenerateContentRequest =
  model_name :: string
  mimeType :: string
  inline_data :: "string option"
  prompt :: string

text \<open>\<open>s.split(',')[1]\<close>; \<open>None\<close> is \<open>undefined\<close>.\<close>

definition split_comma_1 :: "string \<Rightarrow> string option" where
  "split_comma_1 s =
     (case dropWhile (\<lambda>c. c \<noteq> CHR '','') s of
        [] \<Rightarrow> None
      | _ # r \<Rightarrow> Some (takeWhile (\<lambda>c. c \<noteq> CHR '','') r))"

text \<open>
  \<open>fileToBase64\<close>: the \<open>FileReader\<close> is the parameter \<open>readAsDataURL\<close> (\<open>None\<close> is its
  \<open>error\<close> event, which rejects with a value that is not an \<open>Error\<close>).
\<close>

definition fileToBase64 :: "(File \<Rightarrow> string option) \<Rightarrow> File \<Rightarrow> thrown + string option" where
  "fileToBase64 readAsDataURL f =
     (case readAsDataURL f of
        None \<Rightarrow> Inl NonError
      | Some res \<Rightarrow> Inr (split_comma_1 res))"

text \<open>
  The argument of \<open>ai.models.generateContent\<close>: the model, the image part (media type and
  base64 data) and the text part.
\<close>

definition request :: "File \<Rightarrow> string option \<Rightarrow> GenerateContentRequest" where
  "request imageFile base64Image =
     \<lparr>model_name = ''gemini-2.5-flash'',
      mimeType = file_type imageFile,
      inline_data = base64Image,
      prompt = ''Describe this image in detail. What is happening, what are the objects, and what is the overall mood?''\<rparr>"

text \<open>
  \<open>analyzeImageWithGemini\<close>: \<open>generateContent\<close> stands for \<open>ai.models.generateContent\<close>,
  which returns the response text or throws.
\<close>

definition analyzeImageWithGemini ::
  "(File \<Rightarrow> string option) \<Rightarrow> (GenerateContentRequest \<Rightarrow> thrown + string) \<Rightarrow> File
    \<Rightarrow> thrown + string" where
  "analyzeImageWithGemini readAsDataURL generateContent imageFile =
     (case (case fileToBase64 readAsDataURL imageFile of
              Inl e \<Rightarrow> Inl e
            | Inr base64Image \<Rightarrow> generateContent (request imageFile base64Image)) of
        Inr response_text \<Rightarrow> Inr response_text
      | Inl (JsError m) \<Rightarrow>
          if js_includes m ''API key not valid''
          then Inl (JsError ''The configured API key is invalid. Please check your setup.'')
          else Inl (JsError (''An error occurred while communicating with the API: '' @ m))
      | Inl NonError \<Rightarrow> Inl (JsError ''An unexpected error occurred during image analysis.''))"

section \<open>ImageAnalyzer\<close>

datatype Status = S_idle | S_loading | S_success | S_error

text \<open>
  \<open>preview\<close> is the cache of \<open>useMemo\<close>: the file the preview URL was made for, with that
  URL; \<open>None\<close> when the memoised value is \<open>null\<close>.
\<close>

record analyzer = url_store +
  file_a :: "File option"
  status_a :: Status
  result :: string
  error_a :: string
  preview :: "(File \<times> url) option"
  file_input_value :: string

definition previewUrl :: "analyzer \<Rightarrow> url option" where
  "previewUrl a = map_option snd (preview a)"

definition initial_a :: analyzer where
  "initial_a = \<lparr>object_urls = [], revoked_urls = [],
     file_a = None, status_a = S_idle, result = [], error_a = [],
     preview = None, file_input_value = []\<rparr>"

text \<open>A render after the state \<open>file\<close> changed recomputes the memoised preview URL.\<close>

definition render :: "analyzer \<Rightarrow> analyzer" where
  "render a =
     (if file_a a = map_option fst (preview a) then a
      else case file_a a of
             None \<Rightarrow> a\<lparr>preview := None\<rparr>
           | Some f \<Rightarrow>
               (let (u, a1) = createObjectURL (file_data f) a
                in a1\<lparr>preview := Some (f, u)\<rparr>))"

definition handleFileChange :: "File option \<Rightarrow> analyzer \<Rightarrow> analyzer" where
  "handleFileChange selectedFile a =
     (case selectedFile of
        None \<Rightarrow> a
      | Some f \<Rightarrow> a\<lparr>file_a := Some f, status_a := S_idle, result := [], error_a := []\<rparr>)"

definition handleAnalyze ::
  "(File \<Rightarrow> string option) \<Rightarrow> (GenerateContentRequest \<Rightarrow> thrown + string) \<Rightarrow> analyzer
    \<Rightarrow> analyzer" where
  "handleAnalyze readAsDataURL generateContent a =
     (case file_a a of
        None \<Rightarrow> a
      | Some f \<Rightarrow>
          (let a1 = a\<lparr>status_a := S_loading, result := [], error_a := []\<rparr>
           in case analyzeImageWithGemini readAsDataURL generateContent f of
                Inr analysisResult \<Rightarrow> a1\<lparr>result := analysisResult, status_a := S_success\<rparr>
              | Inl err \<Rightarrow>
                  a1\<lparr>error_a := (case err of JsError m \<Rightarrow> m
                                  | NonError \<Rightarrow> ''An unknown error occurred.''),
                     status_a := S_error\<rparr>))"

text \<open>
  \<open>handleClear\<close>: the file input exists in the document only while no file is selected,
  so its value is reset only then.
\<close>

definition handleClear :: "analyzer \<Rightarrow> analyzer" where
  "handleClear a =
     (let a1 = a\<lparr>file_a := None, status_a := S_idle, result := [], error_a := []\<rparr>
      in if file_a a = None then a1\<lparr>file_input_value := []\<rparr> else a1)"

section \<open>Auxiliary notions\<close>

text \<open>Delivery of every queued recorder event.\<close>

definition drain :: "world \<Rightarrow> world" where
  "drain w = (deliver ^^ length (tasks w)) w"

text \<open>
  The invariant of the reachable states: a status of \<open>idle\<close> or \<open>finished\<close> holds no stream;
  recorder events are queued only between a stop and its finalize; a capturing recorder
  means status \<open>recording\<close> with no event queued.
\<close>

definition inv :: "world \<Rightarrow> bool" where
  "inv w =
     ((status w = Idle \<or> status w = Finished \<longrightarrow> mediaStream w = None)
      \<and> (tasks w = [] \<or>
           (status w = Recording \<and> \<not> is_capturing w \<and>
            (\<exists>b ms. tasks w = [DataAvailable b, Stop ms] \<or> tasks w = [Stop ms])))
      \<and> (is_capturing w \<longrightarrow> status w = Recording \<and> tasks w = []))"

text \<open>
  The two shapes of the timer list during a recording: the stopwatch interval together with
  the pending auto-stop timeout, which \<open>timerRef\<close> names, or the stopwatch interval alone.
\<close>

definition armed :: "world \<Rightarrow> nat \<Rightarrow> nat \<Rightarrow> int \<Rightarrow> bool" where
  "armed w i a T =
     ((\<exists>di. timers w = [Timer i di (Some 1000) StopwatchTick, Timer a T None AutoStop])
      \<and> timerRef w = Some a \<and> a \<noteq> 0 \<and> a \<noteq> i \<and> is_capturing w)"

definition ticking :: "world \<Rightarrow> nat \<Rightarrow> bool" where
  "ticking w i = (\<exists>di. timers w = [Timer i di (Some 1000) StopwatchTick])"

section \<open>Concrete runs\<close>

text \<open>
  The recorder: the rear camera is refused and the fallback grants a stream with tracks
  \<open>1\<close> and \<open>2\<close>; the duration is set to five minutes; three bytes are captured; the
  recording is stopped by hand and its two events are delivered.
\<close>

definition gum_any_only :: "MediaStreamConstraints \<Rightarrow> MediaStream option" where
  "gum_any_only c = (if video c = AnyVideo then Some [1, 2] else None)"

definition ex_ready :: world where
  "ex_ready = handleRequestPermission gum_any_only initial"

definition ex_recording :: world where
  "ex_recording = platform_capture [7, 8, 9] (handleStartRecording (duration_onChange ''5'' ex_ready))"

definition ex_finished :: world where
  "ex_finished = deliver (deliver (handleStopRecording ex_recording))"

text \<open>
  A recording of 35792 minutes, started in the ready state of the run above.
\<close>

definition ex_long :: world where
  "ex_long = handleStartRecording (duration_onChange ''35792'' ex_ready)"

text \<open>
  A recorder that stops by itself: the recording of the run above ends without
  \<open>StopRecording\<close>, its events are delivered, a new session is begun and the camera is
  granted again; 299999 milliseconds later the next recording is started.
\<close>

definition ex_stale_ready :: world where
  "ex_stale_ready =
     handleRequestPermission gum_any_only
       (handleNewRecording (deliver (deliver (recorder_stop ex_recording))))"

definition ex_next :: world where
  "ex_next = handleStartRecording ((advance1 ^^ 299999) ex_stale_ready)"

text \<open>
  The analyzer: one image is selected and rendered; the file reader answers with a data
  URL; the inference call fails with an invalid-key error or with a service error.
\<close>

definition ex_file :: File where
  "ex_file = \<lparr>file_ref = 1, file_type = ''image/png'', file_data = [1, 2, 3]\<rparr>"

definition ex_selected :: analyzer where
  "ex_selected = render (handleFileChange (Some ex_file) initial_a)"

definition ex_reader :: "File \<Rightarrow> string option" where
  "ex_reader f = Some ''data:image/png;base64,AQID''"

definition ex_bad_key :: "GenerateContentRequest \<Rightarrow> thrown + string" where
  "ex_bad_key r = Inl (JsError ''400: API key not valid. Please pass a valid API key.'')"

definition ex_unavailable :: "GenerateContentRequest \<Rightarrow> thrown + string" where
  "ex_unavailable r = Inl (JsError ''503 Service Unavailable'')"

section \<open>Evaluation of the concrete runs\<close>

lemma delay_ms_in_range: "0 \<le> n \<Longrightarrow> n < 2147483648 \<Longrightarrow> delay_ms (Num n) = n"
  by (simp add: delay_ms_def to_int32_def)

lemma delay_ms_wraps: "delay_ms (Num (35792 * 60 * 1000)) = 0"
  by (simp add: delay_ms_def to_int32_def)

lemmas vr_defs = handleRequestPermission_def getUserMedia_def video_mounted_def
  handleStartRecording_def recorder_start_def startStopwatch_def setInterval_def setTimeout_def
  delay_ms_in_range handleStopRecording_def recorder_stop_def clearTimeout_def platform_capture_def
  deliver_def ondataavailable_def onstop_def createObjectURL_def stopStopwatch_def track_stop_def
  handleNewRecording_def revokeObjectURL_def duration_onChange_def

lemma parse5: "parseInt10 ''5'' = Num 5"
  by (simp add: parseInt10_def is_ws_def is_digit_def digits_val_def)

lemma ex_ready_eq: "ex_ready = initial\<lparr>status := Ready, mediaStream := Some [1, 2],
    requests := [\<lparr>video = FacingMode ''environment'', audio = True\<rparr>, \<lparr>video = AnyVideo, audio = True\<rparr>]\<rparr>"
  by (simp add: ex_ready_def initial_def gum_any_only_def vr_defs)

lemma ex_recording_eq: "ex_recording = ex_ready\<lparr>status := Recording, duration := Num 5,
    mediaRecorderRef := Some \<lparr>mr_state = RS_recording, mr_stream = [1, 2]\<rparr>,
    timerRef := Some 2, stopwatchRef := Some 1, buffered := [7, 8, 9], last_timer_id := 2,
    timers := [Timer 1 1000 (Some 1000) StopwatchTick, Timer 2 300000 None AutoStop]\<rparr>"
  by (simp add: ex_recording_def ex_ready_eq initial_def vr_defs parse5)

lemma ex_finished_eq: "ex_finished = ex_recording\<lparr>object_urls := [(BlobUrl 0, [7, 8, 9])],
    status := Finished, mediaStream := None, recordedVideoUrl := Some (BlobUrl 0),
    mediaRecorderRef := Some \<lparr>mr_state = RS_inactive, mr_stream = [1, 2]\<rparr>,
    recordedChunksRef := [[7, 8, 9]], timerRef := None, stopwatchRef := None,
    stopped_tracks := [1, 2], buffered := [], timers := []\<rparr>"
  by (simp add: ex_finished_def ex_recording_eq ex_ready_eq initial_def vr_defs Let_def)

lemma ex_recording_capturing: "is_capturing ex_recording" "tasks ex_recording = []"
  "stops ex_recording = 0" "object_urls ex_recording = []"
  by (simp_all add: ex_recording_eq ex_ready_eq initial_def is_capturing_def stops_def)

lemma ex_ready_fields: "mediaStream ex_ready = Some [1, 2]" "timerRef ex_ready = None"
  "timers ex_ready = []" "last_timer_id ex_ready = 0" "now ex_ready = 0" "status ex_ready = Ready"
  by (simp_all add: ex_ready_eq initial_def)

lemma ex_finished_fields: "status ex_finished = Finished"
  "recordedVideoUrl ex_finished = Some (BlobUrl 0)"
  "recordedChunksRef ex_finished = [[7, 8, 9]]" "duration ex_finished = Num 5"
  "revoked_urls ex_finished = []"
  by (simp_all add: ex_finished_eq ex_recording_eq ex_ready_eq initial_def)

lemma ex_selected_eq: "ex_selected = initial_a\<lparr>object_urls := [(BlobUrl 0, [1, 2, 3])],
    file_a := Some ex_file, preview := Some (ex_file, BlobUrl 0)\<rparr>"
  by (simp add: ex_selected_def render_def handleFileChange_def initial_a_def createObjectURL_def
        ex_file_def Let_def)

lemma ex_selected_file: "file_a ex_selected = Some ex_file"
  by (simp add: ex_selected_eq)


section \<open>What each handler changes\<close>

lemma fold_track_stop: "fold track_stop ms w = w\<lparr>stopped_tracks := stopped_tracks w @ ms\<rparr>"
  by (induction ms arbitrary: w) (simp_all add: track_stop_def)

lemma ondataavailable_fields [simp]:
  "status (ondataavailable d w) = status w"
  "mediaStream (ondataavailable d w) = mediaStream w"
  "tasks (ondataavailable d w) = tasks w"
  "mediaRecorderRef (ondataavailable d w) = mediaRecorderRef w"
  by (simp_all add: ondataavailable_def)

lemma onstop_fields [simp]:
  "status (onstop ms w) = Finished"
  "mediaStream (onstop ms w) = None"
  "tasks (onstop ms w) = tasks w"
  "mediaRecorderRef (onstop ms w) = mediaRecorderRef w"
  by (simp_all add: onstop_def createObjectURL_def stopStopwatch_def clearTimeout_def
        fold_track_stop Let_def split: option.splits)

lemma permission_fields:
  "tasks (handleRequestPermission gum w) = tasks w"
  "object_urls (handleRequestPermission gum w) = object_urls w"
  "revoked_urls (handleRequestPermission gum w) = revoked_urls w"
  "stopped_tracks (handleRequestPermission gum w) = stopped_tracks w"
  by (simp_all add: handleRequestPermission_def getUserMedia_def video_mounted_def Let_def
        split: option.splits)

lemma permission_ready:
  "status (handleRequestPermission gum w) = Ready \<Longrightarrow>
     mediaStream (handleRequestPermission gum w) \<noteq> None"
  by (simp add: handleRequestPermission_def getUserMedia_def video_mounted_def Let_def
        split: option.splits)

lemmas start_defs = handleStartRecording_def recorder_start_def startStopwatch_def
  setInterval_def setTimeout_def delay_ms_in_range Let_def

lemma start_fields:
  assumes "mediaStream w = Some ms"
  shows "mediaRecorderRef (handleStartRecording w) = Some \<lparr>mr_state = RS_recording, mr_stream = ms\<rparr>"
    and "recordedChunksRef (handleStartRecording w) = []"
    and "buffered (handleStartRecording w) = []"
    and "tasks (handleStartRecording w) = tasks w"
    and "object_urls (handleStartRecording w) = object_urls w"
    and "revoked_urls (handleStartRecording w) = revoked_urls w"
    and "stopped_tracks (handleStartRecording w) = stopped_tracks w"
    and "status (handleStartRecording w) = Recording"
  using assms by (simp_all add: start_defs)

lemma capture_fields:
  "mediaRecorderRef (platform_capture d w) = mediaRecorderRef w"
  "recordedChunksRef (platform_capture d w) = recordedChunksRef w"
  "tasks (platform_capture d w) = tasks w"
  "object_urls (platform_capture d w) = object_urls w"
  "revoked_urls (platform_capture d w) = revoked_urls w"
  "stopped_tracks (platform_capture d w) = stopped_tracks w"
  "buffered (platform_capture d w) = (if is_capturing w then buffered w @ d else buffered w)"
  by (simp_all add: platform_capture_def is_capturing_def split: option.splits)

lemmas stop_defs = handleStopRecording_def recorder_stop_def clearTimeout_def Let_def

lemma stop_fields:
  "recordedChunksRef (handleStopRecording w) = recordedChunksRef w"
  "object_urls (handleStopRecording w) = object_urls w"
  "revoked_urls (handleStopRecording w) = revoked_urls w"
  "stopped_tracks (handleStopRecording w) = stopped_tracks w"
  "status (handleStopRecording w) = status w"
  "mediaStream (handleStopRecording w) = mediaStream w"
  by (simp_all add: stop_defs split: option.splits)

lemma stop_tasks:
  "mediaRecorderRef w = Some r \<Longrightarrow> mr_state r = RS_recording \<Longrightarrow>
     tasks (handleStopRecording w) = tasks w @ [DataAvailable (buffered w), Stop (mr_stream r)]"
  by (simp add: stop_defs split: option.splits)

lemma deliver_Cons: "tasks w = t # ts \<Longrightarrow> deliver w = run_task t (w\<lparr>tasks := ts\<rparr>)"
  by (simp add: deliver_def)

lemma ondataavailable_more:
  "recordedChunksRef (ondataavailable d w) = recordedChunksRef w @ (if d = [] then [] else [d])"
  "object_urls (ondataavailable d w) = object_urls w"
  "revoked_urls (ondataavailable d w) = revoked_urls w"
  "stopped_tracks (ondataavailable d w) = stopped_tracks w"
  by (simp_all add: ondataavailable_def)

lemmas onstop_defs = onstop_def createObjectURL_def stopStopwatch_def clearTimeout_def
  fold_track_stop Let_def

lemma onstop_more:
  "recordedVideoUrl (onstop ms w) = Some (BlobUrl (length (object_urls w)))"
  "object_urls (onstop ms w) =
     object_urls w @ [(BlobUrl (length (object_urls w)), concat (recordedChunksRef w))]"
  "revoked_urls (onstop ms w) = revoked_urls w"
  "stopped_tracks (onstop ms w) = stopped_tracks w @ ms"
  by (simp_all add: onstop_defs split: option.splits)

lemma new_fields:
  "recordedVideoUrl (handleNewRecording w) = None"
  "status (handleNewRecording w) = Idle"
  "error (handleNewRecording w) = None"
  "elapsedTime (handleNewRecording w) = 0"
  "mediaStream (handleNewRecording w) = mediaStream w"
  "object_urls (handleNewRecording w) = object_urls w"
  "stopped_tracks (handleNewRecording w) = stopped_tracks w"
  "tasks (handleNewRecording w) = tasks w"
  "recordedChunksRef (handleNewRecording w) = recordedChunksRef w"
  "duration (handleNewRecording w) = duration w"
  "revoked_urls (handleNewRecording w) =
     revoked_urls w @ (case recordedVideoUrl w of None \<Rightarrow> [] | Some u \<Rightarrow> [u])"
  by (simp_all add: handleNewRecording_def revokeObjectURL_def Let_def split: option.splits)

lemma stop_noop: "\<not> is_capturing w \<Longrightarrow> handleStopRecording w = w"
  by (auto simp: is_capturing_def handleStopRecording_def split: option.splits)

lemma stop_not_capturing: "\<not> is_capturing (handleStopRecording w)"
  by (auto simp: is_capturing_def stop_defs split: option.splits)

lemma stop_stops: "is_capturing w \<Longrightarrow> stops (handleStopRecording w) = Suc (stops w)"
  by (auto simp: is_capturing_def stops_def stop_defs split: option.splits)

lemma duration_onChange_parsed:
  "parseInt10 v = Num n \<Longrightarrow> duration (duration_onChange v w) = Num (max 1 n)"
  by (simp add: duration_onChange_def)

lemma duration_onChange_nonpositive:
  "parseInt10 v = Num n \<Longrightarrow> n \<le> 0 \<Longrightarrow> duration (duration_onChange v w) = Num 1"
  by (simp add: duration_onChange_def)

lemma parse_examples: "parseInt10 ''0'' = Num 0" "parseInt10 ''-3'' = Num (- 3)"
  by (simp_all add: parseInt10_def is_ws_def is_digit_def digits_val_def)

lemma duration_onChange_examples:
  "duration (duration_onChange ''0'' w) = Num 1"
  "duration (duration_onChange ''-3'' w) = Num 1"
  by (simp_all add: duration_onChange_nonpositive[OF parse_examples(1)]
        duration_onChange_nonpositive[OF parse_examples(2)])

section \<open>The invariant of the reachable states\<close>

lemma inv_initial: "inv initial"
  by (simp add: inv_def initial_def is_capturing_def)

lemma inv_permission: "inv w \<Longrightarrow> status w = Idle \<Longrightarrow> inv (handleRequestPermission gum w)"
  by (auto simp: inv_def handleRequestPermission_def getUserMedia_def video_mounted_def
        is_capturing_def Let_def split: option.splits)

lemma inv_duration: "inv w \<Longrightarrow> inv (duration_onChange v w)"
  by (simp add: inv_def duration_onChange_def is_capturing_def)

lemma inv_start: "inv w \<Longrightarrow> status w = Ready \<Longrightarrow> inv (handleStartRecording w)"
  by (auto simp: inv_def handleStartRecording_def recorder_start_def startStopwatch_def
        setInterval_def setTimeout_def is_capturing_def Let_def split: option.splits)

lemma inv_stop: "inv w \<Longrightarrow> inv (handleStopRecording w)"
  by (auto simp: inv_def handleStopRecording_def recorder_stop_def clearTimeout_def
        is_capturing_def Let_def split: option.splits)

lemma inv_new: "inv w \<Longrightarrow> status w = Finished \<Longrightarrow> inv (handleNewRecording w)"
  by (auto simp: inv_def handleNewRecording_def revokeObjectURL_def
        is_capturing_def Let_def split: option.splits)

lemma inv_capture: "inv w \<Longrightarrow> inv (platform_capture d w)"
  by (auto simp: inv_def platform_capture_def is_capturing_def split: option.splits)

lemma inv_ends: "inv w \<Longrightarrow> is_capturing w \<Longrightarrow> inv (recorder_stop w)"
  by (auto simp: inv_def recorder_stop_def is_capturing_def split: option.splits)

lemma inv_deliver: "inv w \<Longrightarrow> inv (deliver w)"
proof (cases "tasks w")
  case Nil
  assume "inv w"
  with Nil show ?thesis by (simp add: deliver_def)
next
  case (Cons t ts)
  assume "inv w"
  with Cons show ?thesis
    by (cases t) (auto simp: inv_def deliver_def is_capturing_def)
qed

lemma inv_fire: "inv w \<Longrightarrow> inv (fire cb w)"
  by (cases cb) (simp_all add: fire_def inv_stop, simp add: inv_def is_capturing_def)

lemma inv_timers_upd: "inv (w\<lparr>timers := ts\<rparr>) = inv w"
  by (simp add: inv_def is_capturing_def)

lemma inv_run_timer: "inv w \<Longrightarrow> inv (run_timer tm w)"
  by (simp add: run_timer_def inv_fire inv_timers_upd)

lemma inv_fold_run_timer: "inv w \<Longrightarrow> inv (fold run_timer tms w)"
  by (induction tms arbitrary: w) (simp_all add: inv_run_timer)

lemma inv_advance: "inv w \<Longrightarrow> inv (advance1 w)"
proof -
  assume "inv w"
  then have "inv (w\<lparr>now := now w + 1\<rparr>)"
    by (simp add: inv_def is_capturing_def)
  then show ?thesis
    unfolding advance1_def Let_def by (rule inv_fold_run_timer)
qed

lemma reachable_inv: "reachable w \<Longrightarrow> inv w"
  by (induction rule: reachable.induct)
    (simp_all add: inv_initial inv_permission inv_duration inv_start inv_stop inv_new
       inv_capture inv_ends inv_deliver inv_advance)

lemma idle_no_stream: "reachable w \<Longrightarrow> status w = Idle \<Longrightarrow> mediaStream w = None"
  using reachable_inv[of w] by (simp add: inv_def)

lemma idle_quiet: "reachable w \<Longrightarrow> status w = Idle \<Longrightarrow> tasks w = [] \<and> \<not> is_capturing w"
  using reachable_inv[of w] by (auto simp: inv_def)

section \<open>One session, from start to finalize\<close>

lemma session_run:
  fixes d :: Blob
  assumes t: "tasks w = []" and m: "mediaStream w = Some ms"
  defines "w4 \<equiv> deliver (deliver (handleStopRecording (platform_capture d (handleStartRecording w))))"
  shows "mediaStream w4 = None"
    and "status w4 = Finished"
    and "tasks w4 = []"
    and "stopped_tracks w4 = stopped_tracks w @ ms"
    and "recordedVideoUrl w4 = Some (BlobUrl (length (object_urls w)))"
    and "object_urls w4 = object_urls w @ [(BlobUrl (length (object_urls w)), d)]"
    and "revoked_urls w4 = revoked_urls w"
proof -
  define w2 where "w2 = platform_capture d (handleStartRecording w)"
  define w3 where "w3 = handleStopRecording w2"
  have cap: "is_capturing (handleStartRecording w)"
    by (simp add: is_capturing_def start_fields[OF m])
  have r2: "mediaRecorderRef w2 = Some \<lparr>mr_state = RS_recording, mr_stream = ms\<rparr>"
    and b2: "buffered w2 = d" and t2: "tasks w2 = []"
    by (simp_all add: w2_def capture_fields start_fields[OF m] cap t)
  have t3: "tasks w3 = [DataAvailable d, Stop ms]"
    unfolding w3_def using stop_tasks[OF r2] by (simp add: b2 t2)
  have d1: "deliver w3 = ondataavailable d (w3\<lparr>tasks := [Stop ms]\<rparr>)"
    using deliver_Cons[OF t3] by simp
  have t4: "tasks (deliver w3) = [Stop ms]"
    by (simp add: d1)
  have d2: "deliver (deliver w3) = onstop ms ((deliver w3)\<lparr>tasks := []\<rparr>)"
    using deliver_Cons[OF t4] by simp
  have w4: "w4 = onstop ms ((deliver w3)\<lparr>tasks := []\<rparr>)"
    by (simp add: w4_def w3_def w2_def d2[unfolded w3_def w2_def])
  have f3: "recordedChunksRef w3 = []" "object_urls w3 = object_urls w"
    "revoked_urls w3 = revoked_urls w" "stopped_tracks w3 = stopped_tracks w"
    by (simp_all add: w3_def stop_fields w2_def capture_fields start_fields[OF m])
  have c3: "recordedChunksRef (deliver w3) = (if d = [] then [] else [d])"
    and u3: "object_urls (deliver w3) = object_urls w"
    and v3: "revoked_urls (deliver w3) = revoked_urls w"
    and s3: "stopped_tracks (deliver w3) = stopped_tracks w"
    unfolding d1 by (simp_all add: ondataavailable_more f3)
  show "mediaStream w4 = None" "status w4 = Finished" "tasks w4 = []"
    by (simp_all add: w4)
  show "stopped_tracks w4 = stopped_tracks w @ ms"
    by (simp add: w4 onstop_more s3)
  show "recordedVideoUrl w4 = Some (BlobUrl (length (object_urls w)))"
    by (simp add: w4 onstop_more u3)
  show "object_urls w4 = object_urls w @ [(BlobUrl (length (object_urls w)), d)]"
    by (simp add: w4 onstop_more u3 c3)
  show "revoked_urls w4 = revoked_urls w"
    by (simp add: w4 onstop_more v3)
qed

lemma stop_then_drain:
  assumes c: "is_capturing w" and t: "tasks w = []"
  shows "tasks (drain (handleStopRecording w)) = []"
    and "status (drain (handleStopRecording w)) = Finished"
    and "length (object_urls (drain (handleStopRecording w))) = Suc (length (object_urls w))"
proof -
  obtain r where r: "mediaRecorderRef w = Some r" "mr_state r = RS_recording"
    using c by (auto simp: is_capturing_def split: option.splits)
  define w3 where "w3 = handleStopRecording w"
  have t3: "tasks w3 = [DataAvailable (buffered w), Stop (mr_stream r)]"
    unfolding w3_def using stop_tasks[OF r] by (simp add: t)
  have d1: "deliver w3 = ondataavailable (buffered w) (w3\<lparr>tasks := [Stop (mr_stream r)]\<rparr>)"
    using deliver_Cons[OF t3] by simp
  have t4: "tasks (deliver w3) = [Stop (mr_stream r)]"
    by (simp add: d1)
  have d2: "deliver (deliver w3) = onstop (mr_stream r) ((deliver w3)\<lparr>tasks := []\<rparr>)"
    using deliver_Cons[OF t4] by simp
  have dr: "drain w3 = deliver (deliver w3)"
    by (simp add: drain_def t3)
  have u: "object_urls (deliver w3) = object_urls w"
    unfolding d1 by (simp add: ondataavailable_more w3_def stop_fields)
  show "tasks (drain (handleStopRecording w)) = []"
    and "status (drain (handleStopRecording w)) = Finished"
    and "length (object_urls (drain (handleStopRecording w))) = Suc (length (object_urls w))"
    unfolding w3_def[symmetric] dr d2 by (simp_all add: onstop_more u)
qed

section \<open>The clock and the auto-stop timer\<close>

lemma advance_ticking:
  assumes "ticking w i"
  shows "ticking (advance1 w) i" and "tasks (advance1 w) = tasks w"
    and "mediaRecorderRef (advance1 w) = mediaRecorderRef w"
    and "now (advance1 w) = now w + 1"
proof -
  obtain di where t: "timers w = [Timer i di (Some 1000) StopwatchTick]"
    using assms by (auto simp: ticking_def)
  show "ticking (advance1 w) i" and "tasks (advance1 w) = tasks w"
    and "mediaRecorderRef (advance1 w) = mediaRecorderRef w"
    and "now (advance1 w) = now w + 1"
    by (simp_all add: advance1_def Let_def t run_timer_def fire_def ticking_def)
qed

lemma advance_armed_before:
  assumes "armed w i a T" and "now w + 1 < T"
  shows "armed (advance1 w) i a T" and "tasks (advance1 w) = tasks w"
    and "now (advance1 w) = now w + 1"
proof -
  obtain di where t: "timers w = [Timer i di (Some 1000) StopwatchTick, Timer a T None AutoStop]"
    and r: "timerRef w = Some a" "a \<noteq> 0" "a \<noteq> i" "is_capturing w"
    using assms(1) by (auto simp: armed_def)
  show "armed (advance1 w) i a T" and "tasks (advance1 w) = tasks w"
    and "now (advance1 w) = now w + 1"
    using assms(2) r
    by (simp_all add: advance1_def Let_def t run_timer_def fire_def armed_def is_capturing_def)
qed

lemma advance_armed_due:
  assumes "armed w i a T" and "T \<le> now w + 1"
  shows "ticking (advance1 w) i" and "stops (advance1 w) = Suc (stops w)"
    and "\<not> is_capturing (advance1 w)"
    and "now (advance1 w) = now w + 1"
proof -
  obtain di where t: "timers w = [Timer i di (Some 1000) StopwatchTick, Timer a T None AutoStop]"
    and r: "timerRef w = Some a" "a \<noteq> 0" "a \<noteq> i" "is_capturing w"
    using assms(1) by (auto simp: armed_def)
  obtain rc where rc: "mediaRecorderRef w = Some rc" "mr_state rc = RS_recording"
    using r(4) by (auto simp: is_capturing_def split: option.splits)
  show "ticking (advance1 w) i" and "stops (advance1 w) = Suc (stops w)"
    and "\<not> is_capturing (advance1 w)"
    and "now (advance1 w) = now w + 1"
    using assms(2) r rc
    by (simp_all add: advance1_def Let_def t run_timer_def fire_def ticking_def
          is_capturing_def stops_def stop_defs)
qed


lemma run_ticking:
  assumes "ticking w i"
  shows "ticking ((advance1 ^^ k) w) i \<and> tasks ((advance1 ^^ k) w) = tasks w
     \<and> mediaRecorderRef ((advance1 ^^ k) w) = mediaRecorderRef w"
proof (induction k)
  case 0
  show ?case using assms by simp
next
  case (Suc k)
  then have t: "ticking ((advance1 ^^ k) w) i" by simp
  from advance_ticking[OF t] Suc show ?case by simp
qed

lemma run_armed:
  assumes "armed w i a T" and "now w < T"
  shows "(int k < T - now w \<longrightarrow>
            armed ((advance1 ^^ k) w) i a T \<and> now ((advance1 ^^ k) w) = now w + int k
            \<and> stops ((advance1 ^^ k) w) = stops w)
       \<and> (T - now w \<le> int k \<longrightarrow>
            ticking ((advance1 ^^ k) w) i \<and> \<not> is_capturing ((advance1 ^^ k) w)
            \<and> stops ((advance1 ^^ k) w) = Suc (stops w))"
proof (induction k)
  case 0
  show ?case using assms by simp
next
  case (Suc k)
  let ?s = "(advance1 ^^ k) w"
  show ?case
  proof (cases "int k < T - now w")
    case True
    with Suc have a: "armed ?s i a T" and n: "now ?s = now w + int k" and st: "stops ?s = stops w"
      by simp_all
    show ?thesis
    proof (cases "int (Suc k) < T - now w")
      case True
      then have "now ?s + 1 < T" using n by simp
      from advance_armed_before[OF a this] True st n show ?thesis
        by (simp add: stops_def)
    next
      case False
      then have "T \<le> now ?s + 1" using n by simp
      from advance_armed_due[OF a this] False st show ?thesis
        by simp
    qed
  next
    case False
    with Suc have t: "ticking ?s i" and c: "\<not> is_capturing ?s"
      and st: "stops ?s = Suc (stops w)"
      by simp_all
    from advance_ticking[OF t] c st False show ?thesis
      by (simp add: stops_def is_capturing_def)
  qed
qed

lemma start_armed:
  assumes "mediaStream w = Some ms" and "timers w = []" and "duration w = Num d" and "0 < d"
    and "d * 60 * 1000 < 2147483648"
  shows "armed (handleStartRecording w) (Suc (last_timer_id w)) (Suc (Suc (last_timer_id w)))
           (now w + d * 60 * 1000)"
    and "timers (handleStartRecording w) =
           [Timer (Suc (last_timer_id w)) (now w + 1000) (Some 1000) StopwatchTick,
            Timer (Suc (Suc (last_timer_id w))) (now w + d * 60 * 1000) None AutoStop]"
    and "now (handleStartRecording w) = now w"
    and "stops (handleStartRecording w) = stops w"
  using assms by (simp_all add: armed_def start_defs is_capturing_def stops_def)

lemma start_unlimited:
  assumes "mediaStream w = Some ms" and "timers w = []" and "\<not> js_gt (duration w) (Num 0)"
  shows "ticking (handleStartRecording w) (Suc (last_timer_id w))"
    and "timers (handleStartRecording w) =
           [Timer (Suc (last_timer_id w)) (now w + 1000) (Some 1000) StopwatchTick]"
    and "timerRef (handleStartRecording w) = timerRef w"
    and "is_capturing (handleStartRecording w)"
    and "stops (handleStartRecording w) = stops w"
  using assms by (simp_all add: ticking_def start_defs is_capturing_def stops_def)

lemma manual_stop_cancels:
  assumes "armed w i a T"
  shows "ticking (handleStopRecording w) i" and "timerRef (handleStopRecording w) = None"
proof -
  obtain rc where rc: "mediaRecorderRef w = Some rc" "mr_state rc = RS_recording"
    using assms by (auto simp: armed_def is_capturing_def split: option.splits)
  show "ticking (handleStopRecording w) i" and "timerRef (handleStopRecording w) = None"
    using assms rc by (auto simp: armed_def ticking_def stop_defs)
qed

text \<open>
  What holds of the auto-stop: started with a stream stored and no timer pending, a
  duration \<open>d > 0\<close> whose delay \<open>d * 60 * 1000\<close> fits in 32 bits (\<open>d \<le> 35791\<close>) arms exactly
  one one-shot timer, and with no manual stop the recorder is recording after \<open>k\<close>
  milliseconds exactly when \<open>k < d * 60 * 1000\<close>, one \<open>stop\<close> being issued from then on;
  a duration \<open>d \<le> 0\<close> arms no timer and the recording never stops by itself.
\<close>

lemma auto_stop_in_range:
  assumes "mediaStream w = Some ms" and "timers w = []" and "duration w = Num d"
  shows "(0 < d \<and> d * 60 * 1000 < 2147483648 \<longrightarrow>
            timerRef (handleStartRecording w) = Some (Suc (Suc (last_timer_id w)))
          \<and> timers (handleStartRecording w) =
              [Timer (Suc (last_timer_id w)) (now w + 1000) (Some 1000) StopwatchTick,
               Timer (Suc (Suc (last_timer_id w))) (now w + d * 60 * 1000) None AutoStop]
          \<and> (\<forall>k. stops ((advance1 ^^ k) (handleStartRecording w))
                   = stops w + (if int k < d * 60 * 1000 then 0 else 1))
          \<and> (\<forall>k. is_capturing ((advance1 ^^ k) (handleStartRecording w))
                   = (int k < d * 60 * 1000)))
       \<and> (d \<le> 0 \<longrightarrow>
            timerRef (handleStartRecording w) = timerRef w
          \<and> timers (handleStartRecording w) =
              [Timer (Suc (last_timer_id w)) (now w + 1000) (Some 1000) StopwatchTick]
          \<and> (\<forall>k. stops ((advance1 ^^ k) (handleStartRecording w)) = stops w)
          \<and> (\<forall>k. is_capturing ((advance1 ^^ k) (handleStartRecording w))))"
proof (intro conjI impI)
  assume "0 < d \<and> d * 60 * 1000 < 2147483648"
  then have d: "0 < d" and b: "d * 60 * 1000 < 2147483648"
    by simp_all
  let ?s = "handleStartRecording w"
  let ?T = "now w + d * 60 * 1000"
  note sa = start_armed[OF assms d b]
  have lt: "now ?s < ?T" using d by (simp add: sa(3))
  show "timerRef ?s = Some (Suc (Suc (last_timer_id w)))"
    using sa(1) by (simp add: armed_def)
  show "timers ?s = [Timer (Suc (last_timer_id w)) (now w + 1000) (Some 1000) StopwatchTick,
               Timer (Suc (Suc (last_timer_id w))) (now w + d * 60 * 1000) None AutoStop]"
    by (rule sa(2))
  show "\<forall>k. stops ((advance1 ^^ k) ?s) = stops w + (if int k < d * 60 * 1000 then 0 else 1)"
  proof
    fix k
    from run_armed[OF sa(1) lt, of k]
    show "stops ((advance1 ^^ k) ?s) = stops w + (if int k < d * 60 * 1000 then 0 else 1)"
      by (simp add: sa(3) sa(4))
  qed
  show "\<forall>k. is_capturing ((advance1 ^^ k) ?s) = (int k < d * 60 * 1000)"
  proof
    fix k
    from run_armed[OF sa(1) lt, of k]
    show "is_capturing ((advance1 ^^ k) ?s) = (int k < d * 60 * 1000)"
      by (auto simp: sa(3) armed_def)
  qed
next
  assume d: "d \<le> 0"
  let ?s = "handleStartRecording w"
  have n: "\<not> js_gt (duration w) (Num 0)" using d assms(3) by simp
  note su = start_unlimited[OF assms(1,2) n]
  show "timerRef ?s = timerRef w" by (rule su(3))
  show "timers ?s = [Timer (Suc (last_timer_id w)) (now w + 1000) (Some 1000) StopwatchTick]"
    by (rule su(2))
  show "\<forall>k. stops ((advance1 ^^ k) ?s) = stops w"
    using run_ticking[OF su(1)] su(5) by (simp add: stops_def)
  show "\<forall>k. is_capturing ((advance1 ^^ k) ?s)"
    using run_ticking[OF su(1)] su(4) by (simp add: is_capturing_def)
qed

section \<open>Where the auto-stop comes early\<close>

text \<open>
  Two runs of the component in which \<open>StopRecording\<close> is invoked before the configured
  duration has passed.  In the first the delay does not fit in 32 bits.  In the second a
  recorder has stopped by itself: \<open>onstop\<close> clears the stopwatch but not the auto-stop
  timeout (only \<open>handleStopRecording\<close> clears it), so the timeout of the earlier recording
  is still pending when the next recording starts, and stops it when it falls due.
\<close>

lemma parse35792: "parseInt10 ''35792'' = Num 35792"
  by (simp add: parseInt10_def is_ws_def is_digit_def digits_val_def)

lemma ex_long_eq: "ex_long = ex_ready\<lparr>status := Recording, duration := Num 35792,
    mediaRecorderRef := Some \<lparr>mr_state = RS_recording, mr_stream = [1, 2]\<rparr>,
    timerRef := Some 2, stopwatchRef := Some 1, last_timer_id := 2,
    timers := [Timer 1 1000 (Some 1000) StopwatchTick, Timer 2 0 None AutoStop]\<rparr>"
  by (simp add: ex_long_def ex_ready_eq initial_def vr_defs parse35792 delay_ms_def to_int32_def)

lemma ex_long_fired: "advance1 ex_long = ex_long\<lparr>now := 1,
    mediaRecorderRef := Some \<lparr>mr_state = RS_inactive, mr_stream = [1, 2]\<rparr>,
    tasks := [DataAvailable [], Stop [1, 2]], timerRef := None,
    timers := [Timer 1 1000 (Some 1000) StopwatchTick]\<rparr>"
  by (simp add: ex_long_eq ex_ready_eq initial_def advance1_def run_timer_def fire_def stop_defs)

lemma reachable_ex_ready: "reachable ex_ready"
proof -
  have "status initial = Idle"
    by (simp add: initial_def)
  from r_permission[OF r_initial this] show ?thesis
    by (simp add: ex_ready_def)
qed

lemma reachable_ex_long: "reachable ex_long"
proof -
  have "reachable (duration_onChange ''35792'' ex_ready)"
    by (rule r_duration[OF reachable_ex_ready ex_ready_fields(6)])
  moreover have "status (duration_onChange ''35792'' ex_ready) = Ready"
    by (simp add: duration_onChange_def ex_ready_fields)
  ultimately show ?thesis
    unfolding ex_long_def by (rule r_start)
qed

lemma advance_none_due:
  "\<forall>tm \<in> set (timers w). now w + 1 < t_due tm \<Longrightarrow> advance1 w = w\<lparr>now := now w + 1\<rparr>"
proof -
  assume "\<forall>tm \<in> set (timers w). now w + 1 < t_due tm"
  then have "filter (\<lambda>tm. t_due tm \<le> now w + 1) (timers w) = []"
    by (auto simp: filter_empty_conv)
  then show ?thesis
    by (simp add: advance1_def Let_def)
qed

lemma run_none_due:
  "\<forall>tm \<in> set (timers w). now w + int k < t_due tm \<Longrightarrow>
     (advance1 ^^ k) w = w\<lparr>now := now w + int k\<rparr>"
proof (induction k)
  case 0
  show ?case by simp
next
  case (Suc k)
  then have e: "(advance1 ^^ k) w = w\<lparr>now := now w + int k\<rparr>"
    by force
  have "\<forall>tm \<in> set (timers (w\<lparr>now := now w + int k\<rparr>)).
          now (w\<lparr>now := now w + int k\<rparr>) + 1 < t_due tm"
    using Suc.prems by (simp add: ac_simps)
  from advance_none_due[OF this] show ?case
    by (simp add: e ac_simps)
qed

lemma reachable_run: "reachable w \<Longrightarrow> reachable ((advance1 ^^ k) w)"
  by (induction k) (simp_all add: r_advance)

lemma ex_self_stopped_eq:
  "deliver (deliver (recorder_stop ex_recording)) =
     ex_recording\<lparr>object_urls := [(BlobUrl 0, [7, 8, 9])],
       status := Finished, mediaStream := None, recordedVideoUrl := Some (BlobUrl 0),
       mediaRecorderRef := Some \<lparr>mr_state = RS_inactive, mr_stream = [1, 2]\<rparr>,
       recordedChunksRef := [[7, 8, 9]], stopwatchRef := None,
       stopped_tracks := [1, 2], buffered := [],
       timers := [Timer 2 300000 None AutoStop]\<rparr>"
  by (simp add: ex_recording_eq ex_ready_eq initial_def vr_defs Let_def)

lemma ex_stale_ready_eq:
  "ex_stale_ready =
     ex_recording\<lparr>object_urls := [(BlobUrl 0, [7, 8, 9])], revoked_urls := [BlobUrl 0],
       status := Ready, mediaStream := Some [1, 2],
       mediaRecorderRef := Some \<lparr>mr_state = RS_inactive, mr_stream = [1, 2]\<rparr>,
       recordedChunksRef := [[7, 8, 9]], stopwatchRef := None,
       requests := [\<lparr>video = FacingMode ''environment'', audio = True\<rparr>,
                    \<lparr>video = AnyVideo, audio = True\<rparr>,
                    \<lparr>video = FacingMode ''environment'', audio = True\<rparr>,
                    \<lparr>video = AnyVideo, audio = True\<rparr>],
       stopped_tracks := [1, 2], buffered := [],
       timers := [Timer 2 300000 None AutoStop]\<rparr>"
  unfolding ex_stale_ready_def ex_self_stopped_eq
  by (simp add: ex_recording_eq ex_ready_eq initial_def gum_any_only_def vr_defs Let_def)

lemma reachable_ex_recording: "reachable ex_recording"
proof -
  have "reachable (duration_onChange ''5'' ex_ready)"
    by (rule r_duration[OF reachable_ex_ready ex_ready_fields(6)])
  moreover have "status (duration_onChange ''5'' ex_ready) = Ready"
    by (simp add: duration_onChange_def ex_ready_fields)
  ultimately have "reachable (handleStartRecording (duration_onChange ''5'' ex_ready))"
    by (rule r_start)
  then show ?thesis
    unfolding ex_recording_def by (rule r_capture)
qed

lemma reachable_ex_stale_ready: "reachable ex_stale_ready"
proof -
  have "reachable (recorder_stop ex_recording)"
    by (rule r_ends[OF reachable_ex_recording ex_recording_capturing(1)])
  then have r: "reachable (deliver (deliver (recorder_stop ex_recording)))"
    by (intro r_deliver)
  have "status (deliver (deliver (recorder_stop ex_recording))) = Finished"
    and "recordedVideoUrl (deliver (deliver (recorder_stop ex_recording))) \<noteq> None"
    by (simp_all add: ex_self_stopped_eq)
  with r have n: "reachable (handleNewRecording (deliver (deliver (recorder_stop ex_recording))))"
    by (rule r_new)
  show ?thesis
    unfolding ex_stale_ready_def by (rule r_permission[OF n]) (simp add: new_fields)
qed

lemma ex_stale_ready_fields:
  "status ex_stale_ready = Ready" "timers ex_stale_ready = [Timer 2 300000 None AutoStop]"
  "now ex_stale_ready = 0" "duration ex_stale_ready = Num 5"
  by (simp_all add: ex_stale_ready_eq ex_recording_eq ex_ready_eq initial_def)

lemma ex_stale_later: "(advance1 ^^ 299999) ex_stale_ready = ex_stale_ready\<lparr>now := 299999\<rparr>"
  using run_none_due[of ex_stale_ready 299999] by (simp add: ex_stale_ready_fields)

lemma ex_next_eq:
  "ex_next = ex_stale_ready\<lparr>now := 299999, status := Recording,
     mediaRecorderRef := Some \<lparr>mr_state = RS_recording, mr_stream = [1, 2]\<rparr>,
     recordedChunksRef := [], timerRef := Some 4, stopwatchRef := Some 3, last_timer_id := 4,
     timers := [Timer 2 300000 None AutoStop, Timer 3 300999 (Some 1000) StopwatchTick,
                Timer 4 599999 None AutoStop]\<rparr>"
  unfolding ex_next_def ex_stale_later
  by (simp add: ex_stale_ready_eq ex_recording_eq ex_ready_eq initial_def vr_defs)

lemma ex_next_fired:
  "advance1 ex_next = ex_next\<lparr>now := 300000,
     mediaRecorderRef := Some \<lparr>mr_state = RS_inactive, mr_stream = [1, 2]\<rparr>,
     tasks := [DataAvailable [], Stop [1, 2]], timerRef := None,
     timers := [Timer 3 300999 (Some 1000) StopwatchTick]\<rparr>"
  by (simp add: ex_next_eq ex_stale_ready_eq ex_recording_eq ex_ready_eq initial_def
        advance1_def run_timer_def fire_def stop_defs)

lemma reachable_ex_next: "reachable ex_next"
proof -
  have "reachable ((advance1 ^^ 299999) ex_stale_ready)"
    by (rule reachable_run[OF reachable_ex_stale_ready])
  moreover have "status ((advance1 ^^ 299999) ex_stale_ready) = Ready"
    by (simp add: ex_stale_later ex_stale_ready_fields)
  ultimately show ?thesis
    unfolding ex_next_def by (rule r_start)
qed

lemma ex_next_fields:
  "duration ex_next = Num 5" "is_capturing ex_next" "now ex_next = 299999"
  "timers ex_next = [Timer 2 300000 None AutoStop, Timer 3 300999 (Some 1000) StopwatchTick,
                     Timer 4 599999 None AutoStop]"
  by (simp_all add: ex_next_eq ex_stale_ready_eq ex_recording_eq ex_ready_eq initial_def
        is_capturing_def)

lemma ex_next_fired_fields:
  "\<not> is_capturing (advance1 ex_next)" "stops (advance1 ex_next) = 1"
  unfolding ex_next_fired
  by (simp_all add: is_capturing_def stops_def)

lemma stale_timer_stops_next_recording:
  "reachable ex_next \<and> duration ex_next = Num 5 \<and> is_capturing ex_next
   \<and> now ex_next = 299999
   \<and> timers ex_next = [Timer 2 300000 None AutoStop, Timer 3 300999 (Some 1000) StopwatchTick,
                          Timer 4 599999 None AutoStop]
   \<and> \<not> is_capturing (advance1 ex_next) \<and> stops (advance1 ex_next) = 1"
  using reachable_ex_next ex_next_fields ex_next_fired_fields by simp

lemma ex_long_fields:
  "duration ex_long = Num 35792" "is_capturing ex_long" "stops ex_long = 0"
  "timers ex_long = [Timer 1 1000 (Some 1000) StopwatchTick, Timer 2 0 None AutoStop]"
  by (simp_all add: ex_long_eq ex_ready_eq initial_def is_capturing_def stops_def)

lemma ex_long_fired_fields:
  "\<not> is_capturing (advance1 ex_long)" "stops (advance1 ex_long) = 1"
  unfolding ex_long_fired
  by (simp_all add: is_capturing_def stops_def)

section \<open>Claims\<close>

text \<open>
  C1. For every run of \<open>RequestPermission\<close> (succeeding), \<open>StartRecording\<close>,
  \<open>StopRecording\<close>, delivery of the finalize events and \<open>NewSession\<close>, started in a
  reachable \<open>idle\<close> state, with any platform answers, any duration and any captured data:
  afterwards no stream is stored, every track of the acquired stream is stopped, the URL of
  the recording is revoked and no longer live, no URL is stored, and no object URL is live
  that was not live before.
\<close>

theorem C1_no_leak:
  assumes "reachable w0" and "status w0 = Idle"
      and "status (handleRequestPermission gum w0) = Ready"
  shows "let w1 = handleRequestPermission gum w0;
             w2 = platform_capture d (handleStartRecording w1);
             w3 = handleStopRecording w2;
             w4 = deliver (deliver w3);
             w5 = handleNewRecording w4
         in (case mediaStream w1 of
               None \<Rightarrow> False
             | Some ms \<Rightarrow> set ms \<subseteq> set (stopped_tracks w5))
          \<and> mediaStream w5 = None
          \<and> (case recordedVideoUrl w4 of
               None \<Rightarrow> False
             | Some u \<Rightarrow> u \<in> set (revoked_urls w5) \<and> u \<notin> live_urls w5)
          \<and> recordedVideoUrl w5 = None
          \<and> live_urls w5 \<subseteq> live_urls w0
          \<and> status w5 = Idle"
proof -
  define w1 where "w1 = handleRequestPermission gum w0"
  obtain ms where m: "mediaStream w1 = Some ms"
    using permission_ready[OF assms(3)] by (auto simp: w1_def)
  have t: "tasks w1 = []"
    using idle_quiet[OF assms(1,2)] by (simp add: w1_def permission_fields)
  note run = session_run[OF t m, of d]
  define w4 where "w4 = deliver (deliver (handleStopRecording (platform_capture d (handleStartRecording w1))))"
  define u where "u = BlobUrl (length (object_urls w1))"
  have a: "set ms \<subseteq> set (stopped_tracks (handleNewRecording w4))"
    by (simp add: new_fields w4_def run)
  have b: "mediaStream (handleNewRecording w4) = None"
    by (simp add: new_fields w4_def run)
  have c: "recordedVideoUrl w4 = Some u"
    by (simp add: w4_def run u_def)
  have d: "u \<in> set (revoked_urls (handleNewRecording w4))"
    by (simp add: new_fields c)
  have ou: "object_urls (handleNewRecording w4) = object_urls w0 @ [(u, d)]"
    unfolding new_fields w4_def run u_def by (simp add: w1_def permission_fields)
  have rv: "revoked_urls (handleNewRecording w4) = revoked_urls w0 @ [u]"
    unfolding new_fields c unfolding w4_def run by (simp add: w1_def permission_fields)
  have e: "live_urls (handleNewRecording w4) \<subseteq> live_urls w0"
    "u \<notin> live_urls (handleNewRecording w4)"
    by (auto simp: live_urls_def ou rv)
  show ?thesis
    unfolding Let_def w1_def[symmetric] w4_def[symmetric]
    using a b c d e by (simp add: m new_fields)
qed

theorem C1_witness:
  "reachable initial \<and> status initial = Idle
   \<and> status (handleRequestPermission gum_any_only initial) = Ready
   \<and> mediaStream (handleNewRecording (deliver (deliver (handleStopRecording
         (platform_capture [7, 8, 9] (handleStartRecording
           (handleRequestPermission gum_any_only initial))))))) = None
   \<and> recordedVideoUrl (handleNewRecording (deliver (deliver (handleStopRecording
         (platform_capture [7, 8, 9] (handleStartRecording
           (handleRequestPermission gum_any_only initial))))))) = None"
proof -
  have s: "status initial = Idle"
    by (simp add: initial_def)
  have r: "status (handleRequestPermission gum_any_only initial) = Ready"
    using ex_ready_fields(6) by (simp add: ex_ready_def)
  from C1_no_leak[OF r_initial s r, of "[7, 8, 9]"] r_initial s r show ?thesis
    by (simp add: Let_def)
qed

text \<open>
  C2. \<open>StopRecording\<close> is idempotent: it changes nothing unless the recorder is
  recording, so a second call right after the first changes nothing; the two calls queue
  exactly one \<open>stop\<close> event when the recorder was recording (none otherwise), and
  delivering the queued events produces exactly one object URL and the status
  \<open>finished\<close>.
\<close>

theorem C2_stop_idempotent:
  "(\<not> is_capturing w \<longrightarrow> handleStopRecording w = w)
   \<and> handleStopRecording (handleStopRecording w) = handleStopRecording w
   \<and> stops (handleStopRecording (handleStopRecording w))
       = stops w + (if is_capturing w then 1 else 0)
   \<and> (is_capturing w \<and> tasks w = [] \<longrightarrow>
        tasks (drain (handleStopRecording (handleStopRecording w))) = []
        \<and> status (drain (handleStopRecording (handleStopRecording w))) = Finished
        \<and> length (object_urls (drain (handleStopRecording (handleStopRecording w))))
            = length (object_urls w) + 1)"
proof -
  have i: "handleStopRecording (handleStopRecording w) = handleStopRecording w"
    by (rule stop_noop[OF stop_not_capturing])
  show ?thesis
    unfolding i by (auto simp: stop_noop stop_stops stop_then_drain)
qed

theorem C2_witness:
  "is_capturing ex_recording \<and> tasks ex_recording = []
   \<and> stops (handleStopRecording (handleStopRecording ex_recording)) = 1
   \<and> length (object_urls (drain (handleStopRecording (handleStopRecording ex_recording)))) = 1
   \<and> \<not> is_capturing (handleStopRecording ex_recording)
   \<and> handleStopRecording (handleStopRecording ex_recording) = handleStopRecording ex_recording"
  using C2_stop_idempotent[of ex_recording] C2_stop_idempotent[of "handleStopRecording ex_recording"]
    stop_not_capturing[of ex_recording]
  by (simp add: ex_recording_capturing)

text \<open>
  C3. \<open>StartRecording\<close> with a duration \<open>d > 0\<close> is to invoke \<open>StopRecording\<close> once, after
  \<open>d * 60\<close> seconds and never earlier.  With the duration input set to \<open>35792\<close> in a ready
  state the code requests a delay of \<open>35792 * 60 * 1000 = 2147520000\<close> milliseconds, which
  does not fit a signed 32-bit integer and wraps to a negative number, counted as zero: the
  one-shot timer is due at once, and after one millisecond of the clock \<open>StopRecording\<close> has
  run and the recorder no longer records.
\<close>

theorem C3_delay_overflow_fires_at_once:
  "reachable ex_long \<and> duration ex_long = Num 35792
   \<and> timers ex_long = [Timer 1 1000 (Some 1000) StopwatchTick, Timer 2 0 None AutoStop]
   \<and> is_capturing ex_long \<and> stops ex_long = 0
   \<and> \<not> is_capturing (advance1 ex_long) \<and> stops (advance1 ex_long) = 1
   \<and> (1 :: int) < 35792 * 60 * 1000"
  using reachable_ex_long ex_long_fields ex_long_fired_fields by simp

text \<open>
  C4. \<open>RequestPermission\<close> from \<open>idle\<close> first asks for the rear (environment) camera with
  the microphone; exactly when that request is rejected it asks once more, for any camera
  with the microphone.  If either request succeeds the stream is stored and the status is
  \<open>ready\<close>; if both fail the error message is set, the status is \<open>idle\<close> again and no
  stream is stored.
\<close>

theorem C4_request_permission:
  assumes "reachable w" and "status w = Idle"
  shows "let w' = handleRequestPermission gum w;
             c1 = \<lparr>video = FacingMode ''environment'', audio = True\<rparr>;
             c2 = \<lparr>video = AnyVideo, audio = True\<rparr>
         in (case gum c1 of
               Some s \<Rightarrow> requests w' = requests w @ [c1] \<and> mediaStream w' = Some s
                          \<and> status w' = Ready \<and> error w' = None
             | None \<Rightarrow>
                (case gum c2 of
                   Some s \<Rightarrow> requests w' = requests w @ [c1, c2] \<and> mediaStream w' = Some s
                              \<and> status w' = Ready \<and> error w' = None
                 | None \<Rightarrow> requests w' = requests w @ [c1, c2] \<and> mediaStream w' = None
                            \<and> status w' = Idle
                            \<and> error w' = Some ''Could not access camera and microphone. Please check permissions in your browser settings.''))"
  using idle_no_stream[OF assms]
  by (simp add: handleRequestPermission_def getUserMedia_def video_mounted_def Let_def
        split: option.splits)

theorem C4_witness:
  "reachable initial \<and> status initial = Idle
   \<and> requests (handleRequestPermission gum_any_only initial) =
        [\<lparr>video = FacingMode ''environment'', audio = True\<rparr>, \<lparr>video = AnyVideo, audio = True\<rparr>]
   \<and> mediaStream (handleRequestPermission gum_any_only initial) = Some [1, 2]
   \<and> status (handleRequestPermission gum_any_only initial) = Ready"
proof -
  have s: "status initial = Idle" and r: "requests initial = []"
    by (simp_all add: initial_def)
  from C4_request_permission[OF r_initial s, of gum_any_only]
  have "requests (handleRequestPermission gum_any_only initial) =
          [\<lparr>video = FacingMode ''environment'', audio = True\<rparr>, \<lparr>video = AnyVideo, audio = True\<rparr>]
        \<and> mediaStream (handleRequestPermission gum_any_only initial) = Some [1, 2]
        \<and> status (handleRequestPermission gum_any_only initial) = Ready"
    by (simp add: Let_def gum_any_only_def r)
  with r_initial s show ?thesis by simp
qed

text \<open>
  C5. The duration input stores \<open>Math.max(1, parseInt(value, 10))\<close>.  For a value that
  parses as an integer this is at least \<open>1\<close>, and exactly \<open>1\<close> for \<open>0\<close> and negative values
  (lemmas \<open>duration_onChange_parsed\<close>, \<open>duration_onChange_nonpositive\<close>), but for the emptied input \<open>parseInt\<close> gives \<open>NaN\<close>
  and the stored duration is \<open>NaN\<close>, which is neither \<open>1\<close> nor greater than \<open>0\<close>.
\<close>

theorem C5_empty_input_stores_NaN:
  "parseInt10 [] = NaN
   \<and> duration (duration_onChange [] w) = NaN
   \<and> \<not> js_gt (duration (duration_onChange [] w)) (Num 0)
   \<and> duration (duration_onChange [] w) \<noteq> Num 1"
  by (simp add: duration_onChange_def parseInt10_def)

text \<open>
  C6, as stated, fails: clearing after a file was selected leaves the preview URL made for
  that file unrevoked and live.
\<close>

theorem C6_counterexample:
  "previewUrl ex_selected = Some (BlobUrl 0)
   \<and> previewUrl (render (handleClear ex_selected)) = None
   \<and> revoked_urls (render (handleClear ex_selected)) = []
   \<and> BlobUrl 0 \<in> live_urls (render (handleClear ex_selected))"
  by (simp add: ex_selected_eq render_def handleClear_def previewUrl_def live_urls_def
        initial_a_def Let_def)

text \<open>
  C6, amended. The clear action, from any state, resets the widget to \<open>idle\<close> with file,
  result and error cleared, and the next render drops the preview URL from the widget; no
  object URL is created or revoked, so every URL that was live stays live.
\<close>

theorem C6_clear:
  "let a' = render (handleClear a)
   in file_a a' = None \<and> status_a a' = S_idle \<and> result a' = [] \<and> error_a a' = []
    \<and> previewUrl a' = None
    \<and> object_urls a' = object_urls a \<and> revoked_urls a' = revoked_urls a
    \<and> live_urls a' = live_urls a"
  by (simp add: render_def handleClear_def previewUrl_def live_urls_def Let_def)

theorem C6_witness:
  "file_a (render (handleClear ex_selected)) = None
   \<and> status_a (render (handleClear ex_selected)) = S_idle
   \<and> live_urls (render (handleClear ex_selected)) = {BlobUrl 0}"
  using C6_clear[of ex_selected] by (simp add: Let_def ex_selected_eq live_urls_def initial_a_def)

text \<open>
  C7, as stated, fails: after \<open>NewSession\<close> from the \<open>finished\<close> state of the concrete
  run, the fragment sequence still holds the recorded fragment and the duration is still
  five minutes, not the initial values.
\<close>

theorem C7_counterexample:
  "status ex_finished = Finished
   \<and> recordedChunksRef (handleNewRecording ex_finished) = [[7, 8, 9]]
   \<and> recordedChunksRef (handleNewRecording ex_finished) \<noteq> recordedChunksRef initial
   \<and> duration (handleNewRecording ex_finished) = Num 5
   \<and> duration (handleNewRecording ex_finished) \<noteq> duration initial"
  by (simp add: new_fields ex_finished_fields initial_def)

text \<open>
  C7, amended. \<open>NewSession\<close> revokes the previous artifact's URL (so that it is no longer
  live), clears the stored URL, the error message and the elapsed-time counter, and sets
  the status to \<open>idle\<close>; the accumulated fragment sequence and the target duration are
  left as they were.
\<close>

theorem C7_new_session:
  "let w' = handleNewRecording w
   in revoked_urls w' = revoked_urls w @ (case recordedVideoUrl w of None \<Rightarrow> [] | Some u \<Rightarrow> [u])
    \<and> (case recordedVideoUrl w of None \<Rightarrow> True | Some u \<Rightarrow> u \<notin> live_urls w')
    \<and> recordedVideoUrl w' = None \<and> status w' = Idle \<and> error w' = None \<and> elapsedTime w' = 0
    \<and> recordedChunksRef w' = recordedChunksRef w \<and> duration w' = duration w"
  by (simp add: new_fields live_urls_def Let_def split: option.splits)

theorem C7_witness:
  "status ex_finished = Finished
   \<and> revoked_urls (handleNewRecording ex_finished) = [BlobUrl 0]
   \<and> BlobUrl 0 \<notin> live_urls (handleNewRecording ex_finished)
   \<and> recordedVideoUrl (handleNewRecording ex_finished) = None
   \<and> status (handleNewRecording ex_finished) = Idle"
  using C7_new_session[of ex_finished] by (simp add: Let_def ex_finished_fields)

text \<open>
  C8. With a file selected and read, when the inference call throws an \<open>Error\<close> whose
  message contains \<open>API key not valid\<close>, \<open>Analyze\<close> leaves the widget in state \<open>error\<close>
  with exactly the message \<open>The configured API key is invalid. Please check your setup.\<close>;
  for any other \<open>Error\<close> the state is \<open>error\<close> and the message is the underlying message
  after the prefix \<open>An error occurred while communicating with the API: \<close>.
\<close>

theorem C8_analyze_errors:
  assumes "file_a a = Some f" and "readAsDataURL f = Some durl"
      and "generateContent (request f (split_comma_1 durl)) = Inl (JsError m)"
  shows "status_a (handleAnalyze readAsDataURL generateContent a) = S_error
       \<and> error_a (handleAnalyze readAsDataURL generateContent a) =
           (if js_includes m ''API key not valid''
            then ''The configured API key is invalid. Please check your setup.''
            else ''An error occurred while communicating with the API: '' @ m)"
  using assms
  by (simp add: handleAnalyze_def analyzeImageWithGemini_def fileToBase64_def Let_def)

theorem C8_witness:
  "file_a ex_selected = Some ex_file
   \<and> status_a (handleAnalyze ex_reader ex_bad_key ex_selected) = S_error
   \<and> error_a (handleAnalyze ex_reader ex_bad_key ex_selected)
       = ''The configured API key is invalid. Please check your setup.''
   \<and> status_a (handleAnalyze ex_reader ex_unavailable ex_selected) = S_error
   \<and> error_a (handleAnalyze ex_reader ex_unavailable ex_selected)
       = ''An error occurred while communicating with the API: 503 Service Unavailable''"
proof -
  have r: "ex_reader ex_file = Some ''data:image/png;base64,AQID''"
    by (simp add: ex_reader_def)
  have b: "ex_bad_key (request ex_file (split_comma_1 ''data:image/png;base64,AQID''))
             = Inl (JsError ''400: API key not valid. Please pass a valid API key.'')"
    by (simp add: ex_bad_key_def)
  have u: "ex_unavailable (request ex_file (split_comma_1 ''data:image/png;base64,AQID''))
             = Inl (JsError ''503 Service Unavailable'')"
    by (simp add: ex_unavailable_def)
  show ?thesis
    using C8_analyze_errors[where readAsDataURL = ex_reader and generateContent = ex_bad_key,
            OF ex_selected_file r b]
          C8_analyze_errors[where readAsDataURL = ex_reader and generateContent = ex_unavailable,
            OF ex_selected_file r u]
    by (simp add: ex_selected_file)
qed

text \<open>
  C9. \<open>StartRecording\<close> requires a live source handle: with no media stream stored,
  \<open>handleStartRecording\<close> changes nothing at all: the status stays, no recorder is
  created, no timer is armed.
\<close>

theorem C9_start_without_stream_is_noop:
  "mediaStream w = None \<Longrightarrow> handleStartRecording w = w"
  by (simp add: handleStartRecording_def)

theorem C9_witness: "mediaStream initial = None \<and> handleStartRecording initial = initial"
  using C9_start_without_stream_is_noop[of initial] by (simp add: initial_def)

text \<open>
  C10. When the duration input is edited to a string that does not parse as an integer
  (the empty string is one), the stored duration is \<open>NaN\<close>, and a following
  \<open>StartRecording\<close> arms no auto-stop timer: \<open>timerRef\<close> is left as it was and the only
  timer added is the stopwatch interval.
\<close>

theorem C10_unparsable_duration:
  assumes "parseInt10 v = NaN" and "mediaStream w = Some ms"
  shows "parseInt10 [] = NaN
       \<and> duration (duration_onChange v w) = NaN
       \<and> timerRef (handleStartRecording (duration_onChange v w)) = timerRef w
       \<and> timers (handleStartRecording (duration_onChange v w))
           = timers w @ [Timer (Suc (last_timer_id w)) (now w + 1000) (Some 1000) StopwatchTick]"
  using assms by (simp add: duration_onChange_def parseInt10_def start_defs)

theorem C10_witness:
  "parseInt10 [] = NaN \<and> mediaStream ex_ready = Some [1, 2]
   \<and> duration (duration_onChange [] ex_ready) = NaN
   \<and> timerRef (handleStartRecording (duration_onChange [] ex_ready)) = None
   \<and> timers (handleStartRecording (duration_onChange [] ex_ready))
       = [Timer 1 1000 (Some 1000) StopwatchTick]"
proof -
  have p: "parseInt10 [] = NaN" by (simp add: parseInt10_def)
  show ?thesis
    using C10_unparsable_duration[OF p ex_ready_fields(1)] by (simp add: ex_ready_fields)
qed

end
